theory Spec2Isabelle
  imports Main "HOL-Library.Multiset"
begin

section \<open>Data model\<close>

text \<open>
  The export package (\<^verbatim>\<open>package export\<close>) and \<^verbatim>\<open>slackdump.go\<close>, embedded
  shallowly. Go's \<^verbatim>\<open>error\<close> results are values of the datatype \<open>error\<close>; a function
  returning \<^verbatim>\<open>error\<close> returns \<open>error option\<close> (\<open>None\<close> is \<^verbatim>\<open>nil\<close>), a function
  returning \<^verbatim>\<open>(T, error)\<close> returns \<open>error + T\<close>. \<open>Wrapped c e\<close> is
  \<^verbatim>\<open>fmt.Errorf("c: %w", e)\<close>; the quoting that \<^verbatim>\<open>%q\<close> adds to an argument is left out
  of the context string.
\<close>

datatype error =
    ErrUnknownEntity
  | ErrNotStarted
  | ErrRetryFailed
  | RateLimitedError nat
  | OtherError string
  | Wrapped string error

text \<open>\<^verbatim>\<open>errors.Is\<close>: the target is the error itself or is found along its chain of wraps.\<close>

fun errors_Is :: "error \<Rightarrow> error \<Rightarrow> bool" where
  "errors_Is (Wrapped c e) target = (Wrapped c e = target \<or> errors_Is e target)"
| "errors_Is e target = (e = target)"

text \<open>\<^verbatim>\<open>slack.User\<close>, \<^verbatim>\<open>slack.Channel\<close>, files and messages: the fields the export reads.\<close>

record user =
  UserID :: string
  UserName :: string

record channel =
  ID :: string
  Name :: string
  NameNormalized :: string
  IsIM :: bool
  User :: string

record slack_file =
  FileID :: string
  FileName :: string

record message =
  Timestamp :: string
  Text :: string
  Files :: "slack_file list"

type_synonym userIndex = "string \<rightharpoonup> user"

text \<open>\<^verbatim>\<open>messagesByDate\<close>, a Go map from date to messages: an association list whose keys
  are distinct.\<close>

type_synonym messagesByDate = "(string \<times> message list) list"

record ProcessResult =
  Entity :: string
  Count :: int

record Options =
  Oldest :: int
  Latest :: int
  IncludeFiles :: bool

record Export =
  dir :: string
  opts :: Options

text \<open>What a file of the export tree holds: one of the JSON documents, or a downloaded
  attachment. \<open>JPartial\<close> is a file that \<^verbatim>\<open>os.Create\<close> has truncated and whose encoding has
  not completed.\<close>

datatype document =
    JUsers "user list"
  | JChannels "channel list"
  | JMessages "message list"
  | JPartial
  | Attachment slack_file

text \<open>What \<^verbatim>\<open>dlog.Printf\<close> and \<^verbatim>\<open>trace.Logf\<close> are given, one constructor per call site.\<close>

datatype log_entry =
    DlogFilterOut string
  | DlogSent string
  | TraceUnsupported channel
  | TraceUserNotFound string

text \<open>The downloader's state: whether it is started, and the attachments it has accepted
  that its workers have not downloaded yet.\<close>

record downloader =
  started :: bool
  queue :: "(string \<times> slack_file) list"

text \<open>The state the export changes: directories and files of the export tree, the log, and
  the downloader that \<^verbatim>\<open>messages\<close> creates.\<close>

record world =
  dirs :: "string set"
  files :: "string \<rightharpoonup> document"
  logs :: "log_entry list"
  dl :: downloader

text \<open>
  What the export is given from outside: the answers of the remote service (each page of a
  listing is an error or its items), the calendar date of a message, which operations of
  the operating system fail, which downloads fail, and the pace of the downloader's worker
  pool (\<open>pool_pace\<close>: of the attachments on the queue, how many the workers have downloaded
  by the time the call that queued the last one returns).
\<close>

record env =
  GetUsers :: "error + user list"
  Conversations :: "string list \<Rightarrow> (error + channel list) list"
  History :: "string \<Rightarrow> int \<Rightarrow> int \<Rightarrow> (error + message list) list"
  message_date :: "message \<Rightarrow> error + string"
  create_error :: "string \<Rightarrow> error option"
  mkdir_error :: "string \<Rightarrow> error option"
  encode_error :: "document \<Rightarrow> error option"
  download_error :: "string \<Rightarrow> slack_file \<Rightarrow> error option"
  pool_pace :: "(string \<times> slack_file) list \<Rightarrow> nat"

section \<open>Serialization and naming\<close>

definition userPrefix :: string where
  "userPrefix = ''IM-''"

text \<open>\<^verbatim>\<open>filepath.Join\<close> of two elements that are clean already (no separator inside, not
  \<^verbatim>\<open>.\<close> or \<^verbatim>\<open>..\<close>): empty elements are ignored.\<close>

definition filepath_Join :: "string \<Rightarrow> string \<Rightarrow> string" where
  "filepath_Join a b = (if a = [] then b else if b = [] then a else a @ ''/'' @ b)"

definition basedir :: "Export \<Rightarrow> string \<Rightarrow> string" where
  "basedir se channelName = filepath_Join (dir se) channelName"

definition serialize :: "env \<Rightarrow> string \<Rightarrow> document \<Rightarrow> world \<Rightarrow> error option \<times> world" where
  "serialize E w_path data w =
     (case encode_error E data of
        Some err \<Rightarrow> (Some (Wrapped ''serialize: failed to encode'' err), w)
      | None \<Rightarrow> (None, w\<lparr>files := (files w)(w_path \<mapsto> data)\<rparr>))"

definition serializeToFile :: "env \<Rightarrow> string \<Rightarrow> document \<Rightarrow> world \<Rightarrow> error option \<times> world" where
  "serializeToFile E filename data w =
     (case create_error E filename of
        Some err \<Rightarrow> (Some (Wrapped (''serializeToFile: failed to create '' @ filename) err), w)
      | None \<Rightarrow> serialize E filename data (w\<lparr>files := (files w)(filename \<mapsto> JPartial)\<rparr>))"

text \<open>The loop of \<^verbatim>\<open>filterOutStrangeChannels\<close>, with the slice it appends to and the lines
  it logs.\<close>

fun filter_loop :: "channel list \<Rightarrow> channel list \<Rightarrow> log_entry list \<Rightarrow> channel list \<times> log_entry list" where
  "filter_loop [] chansFiltered lg = (chansFiltered, lg)"
| "filter_loop (c # cs) chansFiltered lg =
     (if Name c \<noteq> [] \<and> NameNormalized c \<noteq> []
      then filter_loop cs (chansFiltered @ [c]) lg
      else filter_loop cs chansFiltered (lg @ [DlogFilterOut (User c)]))"

definition filterOutStrangeChannels_logged :: "channel list \<Rightarrow> channel list \<times> log_entry list" where
  "filterOutStrangeChannels_logged chans = filter_loop chans [] []"

definition filterOutStrangeChannels :: "channel list \<Rightarrow> channel list" where
  "filterOutStrangeChannels chans = fst (filterOutStrangeChannels_logged chans)"

text \<open>\<^verbatim>\<open>validName\<close>: the name or the error, and what it traces.\<close>

definition validName :: "channel \<Rightarrow> userIndex \<Rightarrow> (error + string) \<times> log_entry list" where
  "validName ch uidx =
     (if NameNormalized ch \<noteq> [] then (Inr (NameNormalized ch), [])
      else if \<not> IsIM ch then (Inl ErrUnknownEntity, [TraceUnsupported ch])
      else (case uidx (User ch) of
              Some u \<Rightarrow> (Inr (userPrefix @ UserName u), [])
            | None \<Rightarrow> (Inr (userPrefix @ User ch), [TraceUserNotFound (User ch)])))"

text \<open>\<^verbatim>\<open>saveChannel\<close>: the directory, then one file per key of the map. Go ranges over a
  map in no fixed order; the model ranges in the order of the association list, and the
  theorems about it hold for every order of the same entries.\<close>

fun saveChannel_loop :: "env \<Rightarrow> string \<Rightarrow> messagesByDate \<Rightarrow> world \<Rightarrow> error option \<times> world" where
  "saveChannel_loop E bd [] w = (None, w)"
| "saveChannel_loop E bd ((date, msgs) # rest) w =
     (case serializeToFile E (filepath_Join bd (date @ ''.json'')) (JMessages msgs) w of
        (Some err, w') \<Rightarrow> (Some err, w')
      | (None, w') \<Rightarrow> saveChannel_loop E bd rest w')"

definition saveChannel :: "Export \<Rightarrow> env \<Rightarrow> string \<Rightarrow> messagesByDate \<Rightarrow> world \<Rightarrow> error option \<times> world" where
  "saveChannel se E channelName msgs w =
     (case mkdir_error E (basedir se channelName) of
        Some err \<Rightarrow> (Some (Wrapped (''unable to create directory '' @ channelName) err), w)
      | None \<Rightarrow>
          saveChannel_loop E (basedir se channelName) msgs
            (w\<lparr>dirs := insert (basedir se channelName) (dirs w)\<rparr>))"

section \<open>Parts of the repository that are not among the sources\<close>

text \<open>Modelled from the spec: \<^verbatim>\<open>Users.IndexByID\<close>, which is not among the sources. The
  user index maps an ID to the user that has it (section 3: "mapping ID \<rightarrow> User, unique
  keys"); of two users with one ID the later one stays.\<close>

definition IndexByID :: "user list \<Rightarrow> userIndex" where
  "IndexByID us = foldl (\<lambda>m u. m(UserID u \<mapsto> u)) Map.empty us"

text \<open>Modelled from the spec: \<^verbatim>\<open>SlackDumper.ExtractFiles\<close>, which is not among the
  sources. The attachment references of a message batch (section 4.3, step 4), in the order
  of the messages.\<close>

definition ExtractFiles :: "message list \<Rightarrow> slack_file list" where
  "ExtractFiles msg = concat (map Files msg)"

text \<open>Modelled from the spec: the package \<^verbatim>\<open>downloader\<close>, which is not among the sources
  (section 4.2). A downloader is stopped when created; \<^verbatim>\<open>Start\<close> makes it running.
  \<^verbatim>\<open>DownloadFile\<close> on a stopped downloader does nothing and reports the not-started
  condition; on a running one it reports the failure of that attachment to its caller, or
  accepts the attachment on the queue. The queue is served by the worker pool at its own
  pace: a worker takes the attachment at the head of the queue and downloads it into its
  directory (the channel's \<^verbatim>\<open>attachments\<close> subdirectory), skipping a file that is there
  already with content. \<^verbatim>\<open>Stop\<close> has the pool download everything that is still queued and
  leaves the downloader stopped.\<close>

definition downloader_New :: downloader where
  "downloader_New = \<lparr>started = False, queue = []\<rparr>"

definition Start :: "downloader \<Rightarrow> downloader" where
  "Start d = d\<lparr>started := True\<rparr>"

definition worker_download :: "string \<times> slack_file \<Rightarrow> world \<Rightarrow> world" where
  "worker_download job w =
     (case files w (filepath_Join (fst job) (FileName (snd job))) of
        None \<Rightarrow>
          w\<lparr>dirs := insert (fst job) (dirs w),
            files := (files w)(filepath_Join (fst job) (FileName (snd job)) \<mapsto> Attachment (snd job))\<rparr>
      | Some present \<Rightarrow>
          if present = JPartial
          then w\<lparr>dirs := insert (fst job) (dirs w),
                 files := (files w)(filepath_Join (fst job) (FileName (snd job)) \<mapsto> Attachment (snd job))\<rparr>
          else w)"

fun pool_download :: "nat \<Rightarrow> world \<Rightarrow> world" where
  "pool_download 0 w = w"
| "pool_download (Suc n) w =
     (case queue (dl w) of
        [] \<Rightarrow> w
      | job # waiting \<Rightarrow> pool_download n (worker_download job (w\<lparr>dl := (dl w)\<lparr>queue := waiting\<rparr>\<rparr>)))"

definition DownloadFile :: "env \<Rightarrow> string \<Rightarrow> slack_file \<Rightarrow> world \<Rightarrow> error option \<times> world" where
  "DownloadFile E directory f w =
     (if \<not> started (dl w) then (Some ErrNotStarted, w)
      else (case download_error E directory f of
              Some err \<Rightarrow> (Some err, w)
            | None \<Rightarrow>
                (None, pool_download (pool_pace E (queue (dl w) @ [(directory, f)]))
                         (w\<lparr>dl := (dl w)\<lparr>queue := queue (dl w) @ [(directory, f)]\<rparr>\<rparr>))))"

definition Stop :: "world \<Rightarrow> world" where
  "Stop w =
     (pool_download (length (queue (dl w))) w)
       \<lparr>dl := (dl (pool_download (length (queue (dl w))) w))\<lparr>started := False\<rparr>\<rparr>"

text \<open>Modelled from the spec: \<^verbatim>\<open>SlackDumper.DumpMessagesRaw\<close>, which is not among the
  sources. It pages through the history of the channel within the time window; each page
  is given to the process function, and the messages are accumulated (section 4.3, step 4).
  A page that cannot be fetched, or a process function that fails, ends the dump with that
  error.\<close>

fun dump_pages ::
  "(error + message list) list \<Rightarrow> (message list \<Rightarrow> world \<Rightarrow> (error + ProcessResult) \<times> world) \<Rightarrow>
   message list \<Rightarrow> world \<Rightarrow> (error + message list) \<times> world" where
  "dump_pages [] processFn acc w = (Inr acc, w)"
| "dump_pages (Inl err # pages) processFn acc w = (Inl err, w)"
| "dump_pages (Inr page # pages) processFn acc w =
     (case processFn page w of
        (Inl err, w') \<Rightarrow> (Inl err, w')
      | (Inr r, w') \<Rightarrow> dump_pages pages processFn (acc @ page) w')"

definition DumpMessagesRaw ::
  "env \<Rightarrow> string \<Rightarrow> int \<Rightarrow> int \<Rightarrow> (message list \<Rightarrow> string \<Rightarrow> world \<Rightarrow> (error + ProcessResult) \<times> world) \<Rightarrow>
   world \<Rightarrow> (error + message list) \<times> world" where
  "DumpMessagesRaw E channelID oldest latest processFn w =
     dump_pages (History E channelID oldest latest) (\<lambda>page. processFn page channelID) [] w"

text \<open>Modelled from the spec: \<^verbatim>\<open>Export.byDate\<close>, which is not among the sources. It
  groups the messages of a channel by calendar date, the date derived from each message's
  timestamp; within a date the messages keep the order in which they were returned
  (section 3, section 4.3 step 7). A message whose date cannot be derived is an error.\<close>

fun add_by_date :: "string \<Rightarrow> message \<Rightarrow> messagesByDate \<Rightarrow> messagesByDate" where
  "add_by_date d m [] = [(d, [m])]"
| "add_by_date d m ((d', ms) # rest) =
     (if d = d' then (d', ms @ [m]) # rest else (d', ms) # add_by_date d m rest)"

fun byDate_loop :: "(message \<Rightarrow> error + string) \<Rightarrow> message list \<Rightarrow> messagesByDate \<Rightarrow> error + messagesByDate" where
  "byDate_loop date_of [] acc = Inr acc"
| "byDate_loop date_of (m # ms) acc =
     (case date_of m of
        Inl err \<Rightarrow> Inl err
      | Inr d \<Rightarrow> byDate_loop date_of ms (add_by_date d m acc))"

definition byDate :: "env \<Rightarrow> message list \<Rightarrow> user list \<Rightarrow> error + messagesByDate" where
  "byDate E msgs users = byDate_loop (message_date E) msgs []"

text \<open>Modelled from the spec: \<^verbatim>\<open>SlackDumper.StreamChannels\<close>, which is not among the
  sources. It pages through the channel listing and gives each channel to the callback as
  it arrives (section 4.3, step 3); a page that cannot be fetched, or a callback that
  returns an error, ends the stream with that error (section 4.3, edge cases: fail-fast).\<close>

fun stream_page :: "(channel \<Rightarrow> 's \<Rightarrow> error option \<times> 's) \<Rightarrow> channel list \<Rightarrow> 's \<Rightarrow> error option \<times> 's" where
  "stream_page cb [] s = (None, s)"
| "stream_page cb (ch # chs) s =
     (case cb ch s of
        (Some err, s') \<Rightarrow> (Some err, s')
      | (None, s') \<Rightarrow> stream_page cb chs s')"

fun stream_pages :: "(channel \<Rightarrow> 's \<Rightarrow> error option \<times> 's) \<Rightarrow> (error + channel list) list \<Rightarrow> 's \<Rightarrow> error option \<times> 's" where
  "stream_pages cb [] s = (None, s)"
| "stream_pages cb (Inl err # pages) s = (Some err, s)"
| "stream_pages cb (Inr chs # pages) s =
     (case stream_page cb chs s of
        (Some err, s') \<Rightarrow> (Some err, s')
      | (None, s') \<Rightarrow> stream_pages cb pages s')"

definition StreamChannels ::
  "env \<Rightarrow> string list \<Rightarrow> (channel \<Rightarrow> 's \<Rightarrow> error option \<times> 's) \<Rightarrow> 's \<Rightarrow> error option \<times> 's" where
  "StreamChannels E chanTypes cb s = stream_pages cb (Conversations E chanTypes) s"

text \<open>Modelled from the spec: \<^verbatim>\<open>network.WithRetry\<close>, which is not among the sources
  (section 4.1). It runs the function; on a rate-limit signal it waits and runs it again,
  up to the bounded number of attempts; any other error is returned at once; running out of
  attempts is the retry-exhausted error. The function is a state transformer, so that its
  invocations can be counted; the waiting itself is not modelled.\<close>

fun is_rate_limited :: "error \<Rightarrow> bool" where
  "is_rate_limited (RateLimitedError d) = True"
| "is_rate_limited err = False"

fun retry_loop :: "nat \<Rightarrow> ('s \<Rightarrow> error option \<times> 's) \<Rightarrow> 's \<Rightarrow> error option \<times> 's" where
  "retry_loop 0 fn s = (Some ErrRetryFailed, s)"
| "retry_loop (Suc n) fn s =
     (case fn s of
        (None, s') \<Rightarrow> (None, s')
      | (Some err, s') \<Rightarrow> if is_rate_limited err then retry_loop n fn s' else (Some err, s'))"

definition network_WithRetry :: "int \<Rightarrow> ('s \<Rightarrow> error option \<times> 's) \<Rightarrow> 's \<Rightarrow> error option \<times> 's" where
  "network_WithRetry maxAttempts fn s = retry_loop (nat maxAttempts) fn s"

section \<open>The rate-limited client: \<^verbatim>\<open>slackdump.go\<close>\<close>

definition AllChanTypes :: "string list" where
  "AllChanTypes = [''mpim'', ''im'', ''public_channel'', ''private_channel'']"

text \<open>\<^verbatim>\<open>withRetry\<close> hands its arguments to \<^verbatim>\<open>network.WithRetry\<close>. The context and the
  limiter are passed through and are not part of the model.\<close>

definition withRetry :: "int \<Rightarrow> ('s \<Rightarrow> error option \<times> 's) \<Rightarrow> 's \<Rightarrow> error option \<times> 's" where
  "withRetry maxAttempts fn s = network_WithRetry maxAttempts fn s"

section \<open>The export orchestrator\<close>

text \<open>The function that \<^verbatim>\<open>downloadFn\<close> returns: its loop over the extracted files (with
  \<open>n_files\<close> their number), then the function itself. Where the Go code returns an error
  beside the zero \<^verbatim>\<open>ProcessResult\<close>, the model returns the error.\<close>

fun downloadFn_loop :: "env \<Rightarrow> string \<Rightarrow> nat \<Rightarrow> slack_file list \<Rightarrow> world \<Rightarrow> (error + ProcessResult) \<times> world" where
  "downloadFn_loop E d n_files [] w = (Inr \<lparr>Entity = ''files'', Count = int n_files\<rparr>, w)"
| "downloadFn_loop E d n_files (f # fs) w =
     (case DownloadFile E d f w of
        (Some err, w') \<Rightarrow>
          (if errors_Is err ErrNotStarted
           then (Inr \<lparr>Entity = ''files'', Count = 0\<rparr>, w')
           else (Inl err, w'))
      | (None, w') \<Rightarrow>
          downloadFn_loop E d n_files fs (w'\<lparr>logs := logs w' @ [DlogSent (FileName f)]\<rparr>))"

definition downloadFn ::
  "Export \<Rightarrow> env \<Rightarrow> string \<Rightarrow> message list \<Rightarrow> string \<Rightarrow> world \<Rightarrow> (error + ProcessResult) \<times> world" where
  "downloadFn se E channelName msg channelID w =
     downloadFn_loop E (filepath_Join (basedir se channelName) ''attachments'')
       (length (ExtractFiles msg)) (ExtractFiles msg) w"

definition exportConversation :: "Export \<Rightarrow> env \<Rightarrow> channel \<Rightarrow> user list \<Rightarrow> world \<Rightarrow> error option \<times> world" where
  "exportConversation se E ch users w =
     (case DumpMessagesRaw E (ID ch) (Oldest (opts se)) (Latest (opts se)) (downloadFn se E (Name ch)) w of
        (Inl err, w1) \<Rightarrow>
          (Some (Wrapped (''failed dumping '' @ Name ch @ '' ('' @ ID ch @ '')'') err), w1)
      | (Inr msgs, w1) \<Rightarrow>
          if length msgs = 0 then (None, w1)
          else (case byDate E msgs users of
                  Inl err \<Rightarrow> (Some (Wrapped ''exportChannelData: error'' err), w1)
                | Inr by_date \<Rightarrow>
                    (case validName ch (IndexByID users) of
                       (Inl err, tr) \<Rightarrow> (Some err, w1\<lparr>logs := logs w1 @ tr\<rparr>)
                     | (Inr name, tr) \<Rightarrow> saveChannel se E name by_date (w1\<lparr>logs := logs w1 @ tr\<rparr>))))"

text \<open>The callback that \<^verbatim>\<open>messages\<close> gives to \<^verbatim>\<open>StreamChannels\<close>. The slice
  \<^verbatim>\<open>chans\<close> that the closure appends to is the first component of its state.\<close>

definition messages_cb ::
  "Export \<Rightarrow> env \<Rightarrow> user list \<Rightarrow> channel \<Rightarrow> channel list \<times> world \<Rightarrow> error option \<times> (channel list \<times> world)" where
  "messages_cb se E users ch s =
     (case exportConversation se E ch users (snd s) of
        (Some err, w') \<Rightarrow> (Some err, (fst s, w'))
      | (None, w') \<Rightarrow> (None, (fst s @ [ch], w')))"

text \<open>\<^verbatim>\<open>messages\<close>: the downloader is created and, with \<^verbatim>\<open>IncludeFiles\<close>, started
  (\<open>with_downloader\<close>); the channels are streamed through the callback
  (\<open>messages_stream\<close>); then the two channel documents are written. The error of writing
  the backup is not looked at.\<close>

definition with_downloader :: "Export \<Rightarrow> world \<Rightarrow> world" where
  "with_downloader se w =
     (if IncludeFiles (opts se) then w\<lparr>dl := Start downloader_New\<rparr> else w\<lparr>dl := downloader_New\<rparr>)"

definition messages_stream :: "Export \<Rightarrow> env \<Rightarrow> user list \<Rightarrow> world \<Rightarrow> error option \<times> (channel list \<times> world)" where
  "messages_stream se E users w =
     StreamChannels E AllChanTypes (messages_cb se E users) ([], with_downloader se w)"

definition messages :: "Export \<Rightarrow> env \<Rightarrow> user list \<Rightarrow> world \<Rightarrow> error option \<times> world" where
  "messages se E users w =
     (case messages_stream se E users w of
        (Some err, (chans, w1)) \<Rightarrow> (Some (Wrapped ''channels: error'' err), w1)
      | (None, (chans, w1)) \<Rightarrow>
          (let w2 = snd (serializeToFile E (filepath_Join (dir se) ''channels_full.json.bak'') (JChannels chans) w1);
               w3 = w2\<lparr>logs := logs w2 @ snd (filterOutStrangeChannels_logged chans)\<rparr>
           in serializeToFile E (filepath_Join (dir se) ''channels.json'')
                (JChannels (filterOutStrangeChannels chans)) w3))"

definition users :: "Export \<Rightarrow> env \<Rightarrow> world \<Rightarrow> (error + user list) \<times> world" where
  "users se E w =
     (case GetUsers E of
        Inl err \<Rightarrow> (Inl err, w)
      | Inr us \<Rightarrow>
          (case serializeToFile E (filepath_Join (dir se) ''users.json'') (JUsers us) w of
             (Some err, w') \<Rightarrow> (Inl err, w')
           | (None, w') \<Rightarrow> (Inr us, w')))"

definition Run :: "Export \<Rightarrow> env \<Rightarrow> world \<Rightarrow> error option \<times> world" where
  "Run se E w =
     (case users se E w of
        (Inl err, w') \<Rightarrow> (Some err, w')
      | (Inr us, w') \<Rightarrow> messages se E us w')"

section \<open>Reading the results\<close>

text \<open>The channels of a listing, page after page; and the messages that a file on disk
  holds.\<close>

definition channels_of_pages :: "(error + channel list) list \<Rightarrow> channel list" where
  "channels_of_pages pages = concat (map (\<lambda>p. case p of Inl err \<Rightarrow> [] | Inr chs \<Rightarrow> chs) pages)"

definition messages_of_file :: "document option \<Rightarrow> message list" where
  "messages_of_file d = (case d of Some (JMessages ms) \<Rightarrow> ms | _ \<Rightarrow> [])"

section \<open>A function that is rate-limited a number of times\<close>

text \<open>A function that fails with the rate-limit signal on its first \<open>k\<close> invocations and
  returns \<open>outcome\<close> on every later one. Its state is the number of invocations so far.\<close>

definition fails_then :: "nat \<Rightarrow> nat \<Rightarrow> error option \<Rightarrow> nat \<Rightarrow> error option \<times> nat" where
  "fails_then k delay outcome calls =
     (if calls < k then (Some (RateLimitedError delay), Suc calls) else (outcome, Suc calls))"

section \<open>A small workspace\<close>

text \<open>Two users, a public channel with three messages on two dates (one with an
  attachment), a direct-message channel, a channel with no name that is not an IM and has
  one message, and a channel with no name that is not an IM and has no message.\<close>

definition demo_users :: "user list" where
  "demo_users = [\<lparr>UserID = ''U1'', UserName = ''alice''\<rparr>, \<lparr>UserID = ''U2'', UserName = ''bob''\<rparr>]"

definition general :: channel where
  "general = \<lparr>ID = ''C1'', Name = ''general'', NameNormalized = ''general'', IsIM = False, User = []\<rparr>"

definition im_alice :: channel where
  "im_alice = \<lparr>ID = ''D1'', Name = [], NameNormalized = [], IsIM = True, User = ''U1''\<rparr>"

definition nameless :: channel where
  "nameless = \<lparr>ID = ''X1'', Name = [], NameNormalized = [], IsIM = False, User = []\<rparr>"

definition nameless_silent :: channel where
  "nameless_silent = \<lparr>ID = ''X2'', Name = [], NameNormalized = [], IsIM = False, User = []\<rparr>"

definition photo :: slack_file where
  "photo = \<lparr>FileID = ''F1'', FileName = ''photo.png''\<rparr>"

definition msg1 :: message where
  "msg1 = \<lparr>Timestamp = ''2022-03-01T09:00'', Text = ''hello'', Files = [photo]\<rparr>"

definition msg2 :: message where
  "msg2 = \<lparr>Timestamp = ''2022-03-02T10:00'', Text = ''world'', Files = []\<rparr>"

definition msg3 :: message where
  "msg3 = \<lparr>Timestamp = ''2022-03-01T17:30'', Text = ''bye'', Files = []\<rparr>"

definition demo_history :: "string \<Rightarrow> (error + message list) list" where
  "demo_history channelID =
     (if channelID = ''C1'' then [Inr [msg1, msg2], Inr [msg3]]
      else if channelID = ''D1'' then [Inr [msg2]]
      else if channelID = ''X1'' then [Inr [msg2]]
      else [Inr []])"

definition demo_env :: "channel list \<Rightarrow> env" where
  "demo_env chans =
     \<lparr>GetUsers = Inr demo_users,
      Conversations = (\<lambda>chanTypes. [Inr chans]),
      History = (\<lambda>channelID oldest latest. demo_history channelID),
      message_date = (\<lambda>m. Inr (take 10 (Timestamp m))),
      create_error = (\<lambda>p. None),
      mkdir_error = (\<lambda>p. None),
      encode_error = (\<lambda>d. None),
      download_error = (\<lambda>d f. None),
      pool_pace = (\<lambda>waiting. 0)\<rparr>"

definition broken_download :: "string \<Rightarrow> slack_file \<Rightarrow> error option" where
  "broken_download d f = Some (OtherError ''404'')"


definition demo_export :: "bool \<Rightarrow> Export" where
  "demo_export include_files = \<lparr>dir = ''out'', opts = \<lparr>Oldest = 0, Latest = 100, IncludeFiles = include_files\<rparr>\<rparr>"

definition empty_world :: world where
  "empty_world = \<lparr>dirs = {}, files = Map.empty, logs = [], dl = downloader_New\<rparr>"

section \<open>Theorems\<close>

subsection \<open>The official-compatibility filter\<close>

lemma filter_loop_eq:
  "filter_loop cs acc lg =
     (acc @ filter (\<lambda>c. Name c \<noteq> [] \<and> NameNormalized c \<noteq> []) cs,
      lg @ map (\<lambda>c. DlogFilterOut (User c)) (filter (\<lambda>c. \<not> (Name c \<noteq> [] \<and> NameNormalized c \<noteq> [])) cs))"
  by (induction cs arbitrary: acc lg) auto

lemma filterOutStrangeChannels_filter:
  "filterOutStrangeChannels chans = filter (\<lambda>c. Name c \<noteq> [] \<and> NameNormalized c \<noteq> []) chans"
  by (simp add: filterOutStrangeChannels_def filterOutStrangeChannels_logged_def filter_loop_eq)

text \<open>
  C2 (as amended). For every list of channels, \<^verbatim>\<open>filterOutStrangeChannels\<close> keeps exactly
  the channels whose \<^verbatim>\<open>Name\<close> and \<^verbatim>\<open>NameNormalized\<close> are both non-empty, each as often as
  it occurs and in the order of the input; a channel missing either of the two names is
  dropped.
\<close>

theorem filter_keeps_doubly_named:
  "filterOutStrangeChannels chans = filter (\<lambda>c. Name c \<noteq> [] \<and> NameNormalized c \<noteq> []) chans"
  by (rule filterOutStrangeChannels_filter)

theorem filter_keeps_doubly_named_witness:
  "filterOutStrangeChannels
     [\<lparr>ID = ''C1'', Name = ''general'', NameNormalized = ''general'', IsIM = False, User = []\<rparr>,
      \<lparr>ID = ''D1'', Name = [], NameNormalized = [], IsIM = True, User = ''U1''\<rparr>,
      \<lparr>ID = ''C2'', Name = ''random'', NameNormalized = [], IsIM = False, User = []\<rparr>,
      \<lparr>ID = ''C3'', Name = ''dev'', NameNormalized = ''dev'', IsIM = False, User = []\<rparr>]
   = [\<lparr>ID = ''C1'', Name = ''general'', NameNormalized = ''general'', IsIM = False, User = []\<rparr>,
      \<lparr>ID = ''C3'', Name = ''dev'', NameNormalized = ''dev'', IsIM = False, User = []\<rparr>]"
  by (simp add: filter_keeps_doubly_named)

text \<open>
  C2 as stated fails: a channel with a \<^verbatim>\<open>Name\<close> and an empty \<^verbatim>\<open>NameNormalized\<close> has one of
  the two names, and the filter drops it.
\<close>

theorem filter_either_name_counterexample:
  "\<not> (\<lparr>ID = ''C2'', Name = ''random'', NameNormalized = [], IsIM = False, User = []\<rparr>
         \<in> set (filterOutStrangeChannels
               [\<lparr>ID = ''C2'', Name = ''random'', NameNormalized = [], IsIM = False, User = []\<rparr>])
       \<longleftrightarrow>
       (Name \<lparr>ID = ''C2'', Name = ''random'', NameNormalized = [], IsIM = False, User = []\<rparr> \<noteq> []
        \<or> NameNormalized \<lparr>ID = ''C2'', Name = ''random'', NameNormalized = [], IsIM = False, User = []\<rparr> \<noteq> []))"
  by (simp add: filterOutStrangeChannels_def filterOutStrangeChannels_logged_def)

text \<open>
  C9. The filter is idempotent: filtering the output of \<^verbatim>\<open>filterOutStrangeChannels\<close> again
  gives the same list.
\<close>

theorem filter_idempotent:
  "filterOutStrangeChannels (filterOutStrangeChannels l) = filterOutStrangeChannels l"
  by (simp add: filterOutStrangeChannels_filter)

theorem filter_idempotent_witness:
  "filterOutStrangeChannels (filterOutStrangeChannels
     [\<lparr>ID = ''C1'', Name = ''general'', NameNormalized = ''general'', IsIM = False, User = []\<rparr>,
      \<lparr>ID = ''D1'', Name = [], NameNormalized = [], IsIM = True, User = ''U1''\<rparr>])
   = [\<lparr>ID = ''C1'', Name = ''general'', NameNormalized = ''general'', IsIM = False, User = []\<rparr>]"
proof -
  have "filterOutStrangeChannels
     [\<lparr>ID = ''C1'', Name = ''general'', NameNormalized = ''general'', IsIM = False, User = []\<rparr>,
      \<lparr>ID = ''D1'', Name = [], NameNormalized = [], IsIM = True, User = ''U1''\<rparr>]
   = [\<lparr>ID = ''C1'', Name = ''general'', NameNormalized = ''general'', IsIM = False, User = []\<rparr>]"
    by (simp add: filterOutStrangeChannels_def filterOutStrangeChannels_logged_def)
  then show ?thesis
    using filter_idempotent [of "[\<lparr>ID = ''C1'', Name = ''general'', NameNormalized = ''general'', IsIM = False, User = []\<rparr>,
      \<lparr>ID = ''D1'', Name = [], NameNormalized = [], IsIM = True, User = ''U1''\<rparr>]"]
    by simp
qed

subsection \<open>Name resolution\<close>

text \<open>
  C3. \<^verbatim>\<open>validName\<close> is a function of the channel and the user index alone, with this
  behaviour: a channel with a non-empty \<^verbatim>\<open>NameNormalized\<close> gets that value, whatever
  \<^verbatim>\<open>IsIM\<close> is; a channel with an empty \<^verbatim>\<open>NameNormalized\<close> that is an IM gets \<^verbatim>\<open>IM-\<close>
  followed by the peer user's name when the peer ID is a key of the index, and \<^verbatim>\<open>IM-\<close>
  followed by the raw peer ID otherwise (with a trace line that the user was not found); a
  channel with an empty \<^verbatim>\<open>NameNormalized\<close> that is not an IM gets the unknown-entity error
  and no name (with a trace line for the unsupported channel).
\<close>

theorem validName_cases:
  "(NameNormalized ch \<noteq> [] \<longrightarrow> validName ch uidx = (Inr (NameNormalized ch), [])) \<and>
   (NameNormalized ch = [] \<and> IsIM ch \<longrightarrow>
      (\<forall>u. uidx (User ch) = Some u \<longrightarrow> validName ch uidx = (Inr (''IM-'' @ UserName u), [])) \<and>
      (User ch \<notin> dom uidx \<longrightarrow>
         validName ch uidx = (Inr (''IM-'' @ User ch), [TraceUserNotFound (User ch)]))) \<and>
   (NameNormalized ch = [] \<and> \<not> IsIM ch \<longrightarrow>
      validName ch uidx = (Inl ErrUnknownEntity, [TraceUnsupported ch]))"
  by (auto simp: validName_def userPrefix_def split: option.splits)

theorem validName_cases_witness:
  "fst (validName \<lparr>ID = ''C1'', Name = ''general'', NameNormalized = ''general'', IsIM = True, User = ''U1''\<rparr>
          (IndexByID [\<lparr>UserID = ''U1'', UserName = ''alice''\<rparr>])) = Inr ''general'' \<and>
   fst (validName \<lparr>ID = ''D1'', Name = [], NameNormalized = [], IsIM = True, User = ''U1''\<rparr>
          (IndexByID [\<lparr>UserID = ''U1'', UserName = ''alice''\<rparr>])) = Inr ''IM-alice'' \<and>
   fst (validName \<lparr>ID = ''D2'', Name = [], NameNormalized = [], IsIM = True, User = ''U2''\<rparr>
          (IndexByID [\<lparr>UserID = ''U1'', UserName = ''alice''\<rparr>])) = Inr ''IM-U2'' \<and>
   fst (validName \<lparr>ID = ''X1'', Name = ''odd'', NameNormalized = [], IsIM = False, User = []\<rparr>
          (IndexByID [\<lparr>UserID = ''U1'', UserName = ''alice''\<rparr>])) = Inl ErrUnknownEntity"
  using
    validName_cases [of "\<lparr>ID = ''C1'', Name = ''general'', NameNormalized = ''general'', IsIM = True, User = ''U1''\<rparr>"
                        "IndexByID [\<lparr>UserID = ''U1'', UserName = ''alice''\<rparr>]"]
    validName_cases [of "\<lparr>ID = ''D1'', Name = [], NameNormalized = [], IsIM = True, User = ''U1''\<rparr>"
                        "IndexByID [\<lparr>UserID = ''U1'', UserName = ''alice''\<rparr>]"]
    validName_cases [of "\<lparr>ID = ''D2'', Name = [], NameNormalized = [], IsIM = True, User = ''U2''\<rparr>"
                        "IndexByID [\<lparr>UserID = ''U1'', UserName = ''alice''\<rparr>]"]
    validName_cases [of "\<lparr>ID = ''X1'', Name = ''odd'', NameNormalized = [], IsIM = False, User = []\<rparr>"
                        "IndexByID [\<lparr>UserID = ''U1'', UserName = ''alice''\<rparr>]"]
  by (simp add: IndexByID_def dom_def)

subsection \<open>The retry policy\<close>

lemma retry_loop_exhausted:
  "c + n \<le> k \<Longrightarrow> retry_loop n (fails_then k d outcome) c = (Some ErrRetryFailed, c + n)"
  by (induction n arbitrary: c) (auto simp: fails_then_def)

lemma retry_loop_success:
  "c \<le> k \<Longrightarrow> k - c < n \<Longrightarrow> retry_loop n (fails_then k d None) c = (None, Suc k)"
proof (induction n arbitrary: c)
  case 0
  then show ?case by simp
next
  case (Suc n)
  show ?case
  proof (cases "c < k")
    case True
    then have "retry_loop (Suc n) (fails_then k d None) c = retry_loop n (fails_then k d None) (Suc c)"
      by (simp add: fails_then_def)
    also have "\<dots> = (None, Suc k)"
      using Suc.IH [of "Suc c"] Suc.prems True by simp
    finally show ?thesis .
  next
    case False
    with Suc.prems have "c = k" by simp
    then show ?thesis by (simp add: fails_then_def)
  qed
qed

lemma retry_loop_other_error:
  "\<not> is_rate_limited err \<Longrightarrow> c \<le> k \<Longrightarrow> k - c < n \<Longrightarrow>
   retry_loop n (fails_then k d (Some err)) c = (Some err, Suc k)"
proof (induction n arbitrary: c)
  case 0
  then show ?case by simp
next
  case (Suc n)
  show ?case
  proof (cases "c < k")
    case True
    then have "retry_loop (Suc n) (fails_then k d (Some err)) c = retry_loop n (fails_then k d (Some err)) (Suc c)"
      by (simp add: fails_then_def)
    also have "\<dots> = (Some err, Suc k)"
      using Suc.IH [of "Suc c"] Suc.prems True by simp
    finally show ?thesis .
  next
    case False
    with Suc.prems have "c = k" by simp
    with Suc.prems(1) show ?thesis by (simp add: fails_then_def)
  qed
qed

text \<open>
  C5. Given a function that fails with the rate-limit signal exactly \<open>k\<close> times and then
  succeeds, and a bound \<open>m\<close> on the attempts: with \<open>m \<ge> k + 1\<close> the retried call succeeds
  and the function has been invoked exactly \<open>k + 1\<close> times; with \<open>m \<le> k\<close> the call fails
  with the retry-exhausted error (after \<open>m\<close> invocations). An error other than the
  rate-limit signal is returned at once, as it is: when it follows \<open>k\<close> rate-limit signals
  the function has been invoked \<open>k + 1\<close> times and no more, whatever attempts remain.
\<close>

theorem withRetry_policy:
  "(int k + 1 \<le> m \<longrightarrow> withRetry m (fails_then k d None) 0 = (None, k + 1)) \<and>
   (m \<le> int k \<longrightarrow> withRetry m (fails_then k d outcome) 0 = (Some ErrRetryFailed, nat m)) \<and>
   (int k + 1 \<le> m \<and> \<not> is_rate_limited err \<longrightarrow>
      withRetry m (fails_then k d (Some err)) 0 = (Some err, k + 1))"
proof (intro conjI impI)
  assume "int k + 1 \<le> m"
  then have "k - 0 < nat m" by linarith
  then show "withRetry m (fails_then k d None) 0 = (None, k + 1)"
    using retry_loop_success [of 0 k "nat m" d] by (simp add: withRetry_def network_WithRetry_def)
next
  assume "m \<le> int k"
  then have "0 + nat m \<le> k" by linarith
  then show "withRetry m (fails_then k d outcome) 0 = (Some ErrRetryFailed, nat m)"
    using retry_loop_exhausted [of 0 "nat m" k d outcome] by (simp add: withRetry_def network_WithRetry_def)
next
  assume a: "int k + 1 \<le> m \<and> \<not> is_rate_limited err"
  then have "k - 0 < nat m" by linarith
  with a show "withRetry m (fails_then k d (Some err)) 0 = (Some err, k + 1)"
    using retry_loop_other_error [of err 0 k "nat m" d] by (simp add: withRetry_def network_WithRetry_def)
qed

theorem withRetry_policy_witness:
  "withRetry 3 (fails_then 2 30 None) 0 = (None, 3) \<and>
   withRetry 2 (fails_then 2 30 None) 0 = (Some ErrRetryFailed, 2) \<and>
   withRetry 5 (fails_then 1 30 (Some (OtherError ''boom''))) 0 = (Some (OtherError ''boom''), 2)"
  using withRetry_policy [of 2 3 30 None "OtherError ''boom''"]
        withRetry_policy [of 2 2 30 None "OtherError ''boom''"]
        withRetry_policy [of 1 5 30 None "OtherError ''boom''"]
  by simp

subsection \<open>The process function of the attachments\<close>

lemma worker_download_dl: "dl (worker_download job w) = dl w"
  by (simp add: worker_download_def split: option.splits)

lemma pool_download_started: "started (dl (pool_download n w)) = started (dl w)"
proof (induction n arbitrary: w)
  case 0
  then show ?case by simp
next
  case (Suc n)
  show ?case
  proof (cases "queue (dl w)")
    case Nil
    then show ?thesis by simp
  next
    case (Cons job waiting)
    then show ?thesis by (simp add: Suc.IH worker_download_dl)
  qed
qed

lemma DownloadFile_started:
  "DownloadFile E d f w = (r, w') \<Longrightarrow> started (dl w') = started (dl w)"
  by (auto simp: DownloadFile_def pool_download_started split: if_splits option.splits)

text \<open>What the modelled downloader does: a worker step takes one attachment off the queue;
  \<^verbatim>\<open>Stop\<close> leaves an empty queue and a stopped downloader; and an attachment that is
  accepted by an idle downloader whose pool takes it at once is on disk, in its directory,
  when \<^verbatim>\<open>DownloadFile\<close> returns.\<close>

lemma pool_download_queue: "queue (dl (pool_download n w)) = drop n (queue (dl w))"
proof (induction n arbitrary: w)
  case 0
  then show ?case by simp
next
  case (Suc n)
  show ?case
  proof (cases "queue (dl w)")
    case Nil
    then show ?thesis by simp
  next
    case (Cons job waiting)
    then show ?thesis by (simp add: Suc.IH worker_download_dl)
  qed
qed

lemma Stop_drains: "queue (dl (Stop w)) = [] \<and> \<not> started (dl (Stop w))"
  by (simp add: Stop_def pool_download_queue)

lemma DownloadFile_downloads:
  assumes "started (dl w)" and "download_error E d f = None" and "queue (dl w) = []"
    and "pool_pace E [(d, f)] = Suc 0" and "files w (filepath_Join d (FileName f)) = None"
  shows "fst (DownloadFile E d f w) = None \<and>
         files (snd (DownloadFile E d f w)) (filepath_Join d (FileName f)) = Some (Attachment f) \<and>
         d \<in> dirs (snd (DownloadFile E d f w)) \<and>
         queue (dl (snd (DownloadFile E d f w))) = []"
  using assms by (simp add: DownloadFile_def worker_download_def)

lemma downloadFn_loop_not_started:
  "\<not> started (dl w) \<Longrightarrow>
   downloadFn_loop E d n fs w = (Inr \<lparr>Entity = ''files'', Count = (if fs = [] then int n else 0)\<rparr>, w)"
  by (cases fs) (simp_all add: DownloadFile_def)

lemma downloadFn_loop_first_error:
  "started (dl w) \<Longrightarrow> \<forall>g \<in> set pre. download_error E d g = None \<Longrightarrow> download_error E d f = Some err \<Longrightarrow>
   fst (downloadFn_loop E d n (pre @ f # post) w) =
     (if errors_Is err ErrNotStarted then Inr \<lparr>Entity = ''files'', Count = 0\<rparr> else Inl err)"
  by (induction pre arbitrary: w) (simp_all add: DownloadFile_def pool_download_started)

lemma downloadFn_no_messages:
  "downloadFn se E channelName [] channelID w = (Inr \<lparr>Entity = ''files'', Count = 0\<rparr>, w)"
  by (simp add: downloadFn_def ExtractFiles_def)

text \<open>
  C7. For every message batch: when the downloader is not started, so that
  \<^verbatim>\<open>DownloadFile\<close> reports the not-started condition, the process function returns success
  with a count of zero attachments and no error, and changes nothing. When the downloader
  is started and the download of an attachment fails (the earlier ones of the batch having
  been accepted), the process function returns that error to its caller, unless the error
  is the not-started condition, which again counts as zero attachments.
\<close>

theorem downloadFn_not_started:
  "(\<not> started (dl w) \<longrightarrow>
      downloadFn se E channelName msg channelID w = (Inr \<lparr>Entity = ''files'', Count = 0\<rparr>, w)) \<and>
   (started (dl w) \<and> ExtractFiles msg = pre @ f # post \<and>
    (\<forall>g \<in> set pre. download_error E (filepath_Join (basedir se channelName) ''attachments'') g = None) \<and>
    download_error E (filepath_Join (basedir se channelName) ''attachments'') f = Some err \<longrightarrow>
      fst (downloadFn se E channelName msg channelID w) =
        (if errors_Is err ErrNotStarted then Inr \<lparr>Entity = ''files'', Count = 0\<rparr> else Inl err))"
  by (auto simp: downloadFn_def downloadFn_loop_not_started downloadFn_loop_first_error)

theorem downloadFn_not_started_witness:
  "downloadFn (demo_export False) (demo_env [general]) ''general'' [msg1, msg2] ''C1'' empty_world
     = (Inr \<lparr>Entity = ''files'', Count = 0\<rparr>, empty_world) \<and>
   fst (downloadFn (demo_export True) ((demo_env [general])\<lparr>download_error := broken_download\<rparr>)
          ''general'' [msg1, msg2] ''C1'' (empty_world\<lparr>dl := Start downloader_New\<rparr>))
     = Inl (OtherError ''404'')"
  using downloadFn_not_started [of empty_world "demo_export False" "demo_env [general]" "''general''"
          "[msg1, msg2]" "''C1''" "[]" photo "[]" "OtherError ''404''"]
        downloadFn_not_started [of "empty_world\<lparr>dl := Start downloader_New\<rparr>" "demo_export True"
          "(demo_env [general])\<lparr>download_error := broken_download\<rparr>" "''general''"
          "[msg1, msg2]" "''C1''" "[]" photo "[]" "OtherError ''404''"]
  by (simp add: empty_world_def downloader_New_def Start_def ExtractFiles_def msg1_def msg2_def
        demo_env_def broken_download_def)

subsection \<open>A channel without messages\<close>

lemma dump_pages_Inr:
  "dump_pages ps fn acc w = (Inr msgs, w1) \<Longrightarrow> \<exists>pages. ps = map Inr pages \<and> msgs = acc @ concat pages"
proof (induction ps fn acc w rule: dump_pages.induct)
  case (1 processFn acc w)
  then show ?case by simp
next
  case (2 err pages processFn acc w)
  then show ?case by simp
next
  case (3 page pages processFn acc w)
  from "3.prems" obtain r w' where step: "processFn page w = (Inr r, w')"
    and rest: "dump_pages pages processFn (acc @ page) w' = (Inr msgs, w1)"
    by (auto split: prod.splits sum.splits)
  from "3.IH" [OF step [symmetric] refl rest]
  obtain pages' where "pages = map Inr pages'" "msgs = (acc @ page) @ concat pages'" by blast
  then have "Inr page # pages = map Inr (page # pages') \<and> msgs = acc @ concat (page # pages')" by simp
  then show ?case by (rule exI)
qed

lemma dump_pages_empty_pages:
  "(\<And>w. \<exists>r. fn [] w = (Inr r, w)) \<Longrightarrow> \<forall>p \<in> set pages. p = [] \<Longrightarrow>
   dump_pages (map Inr pages) fn acc w = (Inr acc, w)"
proof (induction pages arbitrary: acc w)
  case Nil
  then show ?case by simp
next
  case (Cons p pages)
  then have p: "p = []" by simp
  from Cons.prems(1) obtain r where "fn [] w = (Inr r, w)" by blast
  with p Cons show ?case by simp
qed

lemma DumpMessagesRaw_no_messages:
  assumes "DumpMessagesRaw E cid oldest latest (downloadFn se E channelName) w = (Inr [], w1)"
  shows "w1 = w"
proof -
  from assms have d: "dump_pages (History E cid oldest latest) (\<lambda>page. downloadFn se E channelName page cid) [] w = (Inr [], w1)"
    by (simp add: DumpMessagesRaw_def)
  from dump_pages_Inr [OF d] obtain pages where ps: "History E cid oldest latest = map Inr pages"
    and e: "[] = [] @ concat pages" by blast
  from e have "\<forall>p \<in> set pages. p = []" by simp
  then have "dump_pages (map Inr pages) (\<lambda>page. downloadFn se E channelName page cid) [] w = (Inr [], w)"
    by (intro dump_pages_empty_pages) (simp_all add: downloadFn_no_messages)
  with d ps show ?thesis by simp
qed

text \<open>
  C8. For every channel whose message-history dump returns zero messages in the time
  window, \<^verbatim>\<open>exportConversation\<close> succeeds and leaves the world as it was before the
  call: no directory is created, no file is written, nothing is traced (the name is not
  resolved) and nothing is queued for download.
\<close>

theorem exportConversation_no_messages:
  "DumpMessagesRaw E (ID ch) (Oldest (opts se)) (Latest (opts se)) (downloadFn se E (Name ch)) w = (Inr [], w1) \<Longrightarrow>
   exportConversation se E ch us w = (None, w) \<and> w1 = w"
  using DumpMessagesRaw_no_messages [of E "ID ch" "Oldest (opts se)" "Latest (opts se)" se "Name ch" w w1]
  by (simp add: exportConversation_def)

theorem exportConversation_no_messages_witness:
  "DumpMessagesRaw (demo_env [nameless_silent]) (ID nameless_silent) (Oldest (opts (demo_export True)))
     (Latest (opts (demo_export True))) (downloadFn (demo_export True) (demo_env [nameless_silent]) (Name nameless_silent))
     (empty_world\<lparr>dl := Start downloader_New\<rparr>) = (Inr [], empty_world\<lparr>dl := Start downloader_New\<rparr>) \<and>
   exportConversation (demo_export True) (demo_env [nameless_silent]) nameless_silent demo_users
     (empty_world\<lparr>dl := Start downloader_New\<rparr>) = (None, empty_world\<lparr>dl := Start downloader_New\<rparr>)"
proof -
  have h: "DumpMessagesRaw (demo_env [nameless_silent]) (ID nameless_silent) (Oldest (opts (demo_export True)))
     (Latest (opts (demo_export True))) (downloadFn (demo_export True) (demo_env [nameless_silent]) (Name nameless_silent))
     (empty_world\<lparr>dl := Start downloader_New\<rparr>) = (Inr [], empty_world\<lparr>dl := Start downloader_New\<rparr>)"
    by (simp add: DumpMessagesRaw_def demo_env_def demo_history_def nameless_silent_def downloadFn_no_messages)
  from exportConversation_no_messages [OF h, of demo_users] h show ?thesis by simp
qed

subsection \<open>Grouping by date and writing the files of a channel\<close>

lemma add_by_date_keys:
  "map fst (add_by_date d m b) = (if d \<in> set (map fst b) then map fst b else map fst b @ [d])"
  by (induction b) (force split: if_splits)+

lemma add_by_date_distinct: "distinct (map fst b) \<Longrightarrow> distinct (map fst (add_by_date d m b))"
  by (simp add: add_by_date_keys)

lemma add_by_date_mset:
  "(\<Sum>p\<leftarrow>add_by_date d m b. mset (snd p)) = (\<Sum>p\<leftarrow>b. mset (snd p)) + {#m#}"
  by (induction b) auto

lemma add_by_date_dated:
  "\<forall>p \<in> set b. \<forall>x \<in> set (snd p). date_of x = Inr (fst p) \<Longrightarrow> date_of m = Inr d \<Longrightarrow>
   \<forall>p \<in> set (add_by_date d m b). \<forall>x \<in> set (snd p). date_of x = Inr (fst p)"
proof (induction b)
  case Nil
  then show ?case by simp
next
  case (Cons q b)
  obtain d' ms where q: "q = (d', ms)" by (cases q)
  from Cons.prems(1) q have head: "\<forall>x \<in> set ms. date_of x = Inr d'"
    and tail: "\<forall>p \<in> set b. \<forall>x \<in> set (snd p). date_of x = Inr (fst p)" by auto
  show ?case
  proof (cases "d = d'")
    case True
    with head tail Cons.prems(2) q show ?thesis by auto
  next
    case False
    with head Cons.IH [OF tail Cons.prems(2)] q show ?thesis by auto
  qed
qed

lemma byDate_loop_invariant:
  "byDate_loop date_of ms acc = Inr b \<Longrightarrow> distinct (map fst acc) \<Longrightarrow>
   \<forall>p \<in> set acc. \<forall>x \<in> set (snd p). date_of x = Inr (fst p) \<Longrightarrow>
   distinct (map fst b) \<and>
   (\<Sum>p\<leftarrow>b. mset (snd p)) = (\<Sum>p\<leftarrow>acc. mset (snd p)) + mset ms \<and>
   (\<forall>p \<in> set b. \<forall>x \<in> set (snd p). date_of x = Inr (fst p))"
proof (induction ms arbitrary: acc)
  case Nil
  then show ?case by simp
next
  case (Cons m ms)
  from Cons.prems(1) obtain d where d: "date_of m = Inr d"
    and rest: "byDate_loop date_of ms (add_by_date d m acc) = Inr b"
    by (auto split: sum.splits)
  have "distinct (map fst (add_by_date d m acc))"
    using Cons.prems(2) by (rule add_by_date_distinct)
  moreover have "\<forall>p \<in> set (add_by_date d m acc). \<forall>x \<in> set (snd p). date_of x = Inr (fst p)"
    using Cons.prems(3) d by (rule add_by_date_dated)
  ultimately have "distinct (map fst b) \<and>
     (\<Sum>p\<leftarrow>b. mset (snd p)) = (\<Sum>p\<leftarrow>add_by_date d m acc. mset (snd p)) + mset ms \<and>
     (\<forall>p \<in> set b. \<forall>x \<in> set (snd p). date_of x = Inr (fst p))"
    using Cons.IH [OF rest] by blast
  then show ?case by (simp add: add_by_date_mset)
qed

lemma byDate_partition:
  assumes "byDate E msgs us = Inr b"
  shows "distinct (map fst b)"
    and "(\<Sum>p\<leftarrow>b. mset (snd p)) = mset msgs"
    and "\<forall>p \<in> set b. \<forall>x \<in> set (snd p). message_date E x = Inr (fst p)"
  using byDate_loop_invariant [of "message_date E" msgs "[]" b] assms
  by (simp_all add: byDate_def)

lemma serializeToFile_ok:
  "serializeToFile E p d w = (None, w') \<Longrightarrow> w' = w\<lparr>files := (files w)(p \<mapsto> d)\<rparr>"
  by (auto simp: serializeToFile_def serialize_def split: option.splits)

lemma date_file_inject:
  "filepath_Join bd (d @ ''.json'') = filepath_Join bd (d' @ ''.json'') \<longleftrightarrow> d = d'"
  by (auto simp: filepath_Join_def)

lemma saveChannel_loop_files:
  "saveChannel_loop E bd b w = (None, w') \<Longrightarrow> distinct (map fst b) \<Longrightarrow>
   (\<forall>p \<in> set b. files w' (filepath_Join bd (fst p @ ''.json'')) = Some (JMessages (snd p))) \<and>
   (\<forall>q. q \<notin> (\<lambda>d. filepath_Join bd (d @ ''.json'')) ` fst ` set b \<longrightarrow> files w' q = files w q) \<and>
   dirs w' = dirs w \<and> logs w' = logs w \<and> dl w' = dl w"
proof (induction b arbitrary: w)
  case Nil
  then show ?case by simp
next
  case (Cons p b)
  obtain d ms where p: "p = (d, ms)" by (cases p)
  let ?path = "\<lambda>d. filepath_Join bd (d @ ''.json'')"
  from Cons.prems(1) p obtain w1 where
    one: "serializeToFile E (?path d) (JMessages ms) w = (None, w1)"
    and rest: "saveChannel_loop E bd b w1 = (None, w')"
    by (auto split: prod.splits option.splits)
  from serializeToFile_ok [OF one] have w1: "w1 = w\<lparr>files := (files w)(?path d \<mapsto> JMessages ms)\<rparr>" .
  from Cons.prems(2) p have dist: "distinct (map fst b)" and fresh: "d \<notin> fst ` set b" by simp_all
  from Cons.IH [OF rest dist] have
    kept: "\<forall>p \<in> set b. files w' (?path (fst p)) = Some (JMessages (snd p))"
    and frame: "\<forall>q. q \<notin> ?path ` fst ` set b \<longrightarrow> files w' q = files w1 q"
    and other: "dirs w' = dirs w1" "logs w' = logs w1" "dl w' = dl w1"
    by blast+
  have "?path d \<notin> ?path ` fst ` set b"
  proof
    assume "?path d \<in> ?path ` fst ` set b"
    then obtain d' where "d' \<in> fst ` set b" "?path d = ?path d'" by blast
    with fresh show False by (simp add: date_file_inject)
  qed
  with frame have "files w' (?path d) = files w1 (?path d)" by blast
  with w1 have here: "files w' (?path d) = Some (JMessages ms)" by simp
  have "\<forall>q. q \<notin> ?path ` fst ` set (p # b) \<longrightarrow> files w' q = files w q"
    using frame w1 p by auto
  with here kept other w1 p show ?case by simp
qed

text \<open>Writing the groups of a channel, in whatever order the map is ranged over: when
  \<^verbatim>\<open>saveChannel\<close> succeeds, each date has its file, the files together hold the grouped
  messages exactly once each, and no other file is touched.\<close>

lemma saveChannel_partition:
  assumes "byDate E msgs us = Inr by_date"
    and "mset written = mset by_date"
    and "saveChannel se E channelName written w = (None, w')"
  shows "distinct (map fst written) \<and>
         (\<Sum>p\<leftarrow>written. mset (messages_of_file (files w' (filepath_Join (basedir se channelName) (fst p @ ''.json'')))))
           = mset msgs \<and>
         (\<forall>p \<in> set written.
            files w' (filepath_Join (basedir se channelName) (fst p @ ''.json'')) = Some (JMessages (snd p)) \<and>
            (\<forall>m \<in> set (snd p). message_date E m = Inr (fst p))) \<and>
         (\<forall>q. q \<notin> (\<lambda>d. filepath_Join (basedir se channelName) (d @ ''.json'')) ` fst ` set written \<longrightarrow>
            files w' q = files w q)"
proof -
  let ?bd = "basedir se channelName"
  note part = byDate_partition [OF assms(1)]
  from assms(2) have "mset (map fst written) = mset (map fst by_date)" by (metis mset_map)
  with part(1) have dist: "distinct (map fst written)" by (metis mset_eq_imp_distinct_iff)
  from assms(2) have same: "set written = set by_date" by (rule mset_eq_setD)
  from assms(3) have loop: "saveChannel_loop E ?bd written (w\<lparr>dirs := insert ?bd (dirs w)\<rparr>) = (None, w')"
    by (auto simp: saveChannel_def split: option.splits)
  from saveChannel_loop_files [OF loop dist] have
    held: "\<forall>p \<in> set written. files w' (filepath_Join ?bd (fst p @ ''.json'')) = Some (JMessages (snd p))"
    and frame: "\<forall>q. q \<notin> (\<lambda>d. filepath_Join ?bd (d @ ''.json'')) ` fst ` set written \<longrightarrow> files w' q = files w q"
    by simp_all
  have "(\<Sum>p\<leftarrow>written. mset (messages_of_file (files w' (filepath_Join ?bd (fst p @ ''.json'')))))
          = (\<Sum>p\<leftarrow>written. mset (snd p))"
    using held by (intro arg_cong [where f = sum_list] map_cong) (simp_all add: messages_of_file_def)
  also have "\<dots> = sum_mset (image_mset (\<lambda>p. mset (snd p)) (mset written))"
    by (simp add: sum_mset_sum_list [symmetric])
  also have "\<dots> = sum_mset (image_mset (\<lambda>p. mset (snd p)) (mset by_date))"
    by (simp add: assms(2))
  also have "\<dots> = (\<Sum>p\<leftarrow>by_date. mset (snd p))"
    by (simp add: sum_mset_sum_list [symmetric])
  also have "\<dots> = mset msgs" by (rule part(2))
  finally have total: "(\<Sum>p\<leftarrow>written. mset (messages_of_file (files w' (filepath_Join ?bd (fst p @ ''.json''))))) = mset msgs" .
  from part(3) same have dated: "\<forall>p \<in> set written. \<forall>m \<in> set (snd p). message_date E m = Inr (fst p)" by simp
  from dist total held dated frame show ?thesis by simp
qed

lemma serializeToFile_succeeds:
  "create_error E p = None \<Longrightarrow> encode_error E d = None \<Longrightarrow>
   serializeToFile E p d w = (None, w\<lparr>files := (files w)(p \<mapsto> d)\<rparr>)"
  by (simp add: serializeToFile_def serialize_def)

lemma saveChannel_loop_succeeds:
  "\<forall>p \<in> set b. create_error E (filepath_Join bd (fst p @ ''.json'')) = None \<and>
                encode_error E (JMessages (snd p)) = None \<Longrightarrow>
   fst (saveChannel_loop E bd b w) = None"
proof (induction b arbitrary: w)
  case Nil
  then show ?case by simp
next
  case (Cons p b)
  obtain d ms where p: "p = (d, ms)" by (cases p)
  with Cons.prems have "serializeToFile E (filepath_Join bd (d @ ''.json'')) (JMessages ms) w
      = (None, w\<lparr>files := (files w)(filepath_Join bd (d @ ''.json'') \<mapsto> JMessages ms)\<rparr>)"
    by (simp add: serializeToFile_succeeds)
  with Cons p show ?case by simp
qed

text \<open>
  C4. For every channel's fetched message set (not empty): the export of the channel
  groups the messages by calendar date and writes one file per date under the channel's
  resolved name. When the dates can be derived, the channel can be named, and the
  directory and the date files can be created and encoded, \<^verbatim>\<open>exportConversation\<close>
  succeeds; the dates are distinct, the file of each date holds the messages of its group
  (all of that date), and the messages of all the date files together are the fetched
  messages, each exactly as often as it was fetched: none is lost and none is duplicated.
  No file but the date files is touched by the saving.
\<close>

theorem date_files_partition_messages:
  assumes "DumpMessagesRaw E (ID ch) (Oldest (opts se)) (Latest (opts se)) (downloadFn se E (Name ch)) w
             = (Inr msgs, w1)"
    and "msgs \<noteq> []"
    and "byDate E msgs us = Inr by_date"
    and "fst (validName ch (IndexByID us)) = Inr name"
    and "mkdir_error E (basedir se name) = None"
    and "\<forall>p \<in> set by_date. create_error E (filepath_Join (basedir se name) (fst p @ ''.json'')) = None \<and>
                            encode_error E (JMessages (snd p)) = None"
  shows "\<exists>w'. exportConversation se E ch us w = (None, w') \<and>
           distinct (map fst by_date) \<and>
           (\<Sum>p\<leftarrow>by_date. mset (messages_of_file (files w' (filepath_Join (basedir se name) (fst p @ ''.json'')))))
             = mset msgs \<and>
           (\<forall>p \<in> set by_date.
              files w' (filepath_Join (basedir se name) (fst p @ ''.json'')) = Some (JMessages (snd p)) \<and>
              (\<forall>m \<in> set (snd p). message_date E m = Inr (fst p))) \<and>
           (\<forall>q. q \<notin> (\<lambda>d. filepath_Join (basedir se name) (d @ ''.json'')) ` fst ` set by_date \<longrightarrow>
              files w' q = files w1 q)"
proof -
  obtain tr where name: "validName ch (IndexByID us) = (Inr name, tr)"
    using assms(4) by (cases "validName ch (IndexByID us)") simp
  let ?w2 = "w1\<lparr>logs := logs w1 @ tr\<rparr>"
  have conv: "exportConversation se E ch us w = saveChannel se E name by_date ?w2"
    using assms(1,2,3) name by (simp add: exportConversation_def)
  have "fst (saveChannel se E name by_date ?w2) = None"
    using assms(5) saveChannel_loop_succeeds [OF assms(6)] by (simp add: saveChannel_def)
  then obtain w' where saved: "saveChannel se E name by_date ?w2 = (None, w')"
    by (metis prod.collapse)
  from saveChannel_partition [OF assms(3) refl saved]
  have "distinct (map fst by_date) \<and>
        (\<Sum>p\<leftarrow>by_date. mset (messages_of_file (files w' (filepath_Join (basedir se name) (fst p @ ''.json'')))))
          = mset msgs \<and>
        (\<forall>p \<in> set by_date.
           files w' (filepath_Join (basedir se name) (fst p @ ''.json'')) = Some (JMessages (snd p)) \<and>
           (\<forall>m \<in> set (snd p). message_date E m = Inr (fst p))) \<and>
        (\<forall>q. q \<notin> (\<lambda>d. filepath_Join (basedir se name) (d @ ''.json'')) ` fst ` set by_date \<longrightarrow>
           files w' q = files w1 q)"
    by simp
  with conv saved show ?thesis by simp
qed

theorem date_files_partition_messages_witness:
  "DumpMessagesRaw (demo_env [general]) (ID general) (Oldest (opts (demo_export False)))
     (Latest (opts (demo_export False))) (downloadFn (demo_export False) (demo_env [general]) (Name general))
     empty_world = (Inr [msg1, msg2, msg3], empty_world) \<and>
   byDate (demo_env [general]) [msg1, msg2, msg3] demo_users
     = Inr [(''2022-03-01'', [msg1, msg3]), (''2022-03-02'', [msg2])] \<and>
   fst (validName general (IndexByID demo_users)) = Inr ''general'' \<and>
   fst (exportConversation (demo_export False) (demo_env [general]) general demo_users empty_world) = None \<and>
   files (snd (exportConversation (demo_export False) (demo_env [general]) general demo_users empty_world))
     ''out/general/2022-03-01.json'' = Some (JMessages [msg1, msg3]) \<and>
   files (snd (exportConversation (demo_export False) (demo_env [general]) general demo_users empty_world))
     ''out/general/2022-03-02.json'' = Some (JMessages [msg2])"
proof -
  let ?se = "demo_export False"
  let ?E = "demo_env [general]"
  have h1: "DumpMessagesRaw ?E (ID general) (Oldest (opts ?se)) (Latest (opts ?se))
      (downloadFn ?se ?E (Name general)) empty_world = (Inr [msg1, msg2, msg3], empty_world)"
    by (simp add: DumpMessagesRaw_def downloadFn_def downloadFn_loop_not_started demo_env_def
          demo_history_def general_def empty_world_def downloader_New_def)
  have h2: "[msg1, msg2, msg3] \<noteq> []" by simp
  have h3: "byDate ?E [msg1, msg2, msg3] demo_users
      = Inr [(''2022-03-01'', [msg1, msg3]), (''2022-03-02'', [msg2])]"
    by (simp add: byDate_def demo_env_def msg1_def msg2_def msg3_def)
  have h4: "fst (validName general (IndexByID demo_users)) = Inr ''general''"
    by (simp add: validName_def general_def)
  have h5: "mkdir_error ?E (basedir ?se ''general'') = None"
    by (simp add: demo_env_def)
  have h6: "\<forall>p \<in> set [(''2022-03-01'', [msg1, msg3]), (''2022-03-02'', [msg2])].
      create_error ?E (filepath_Join (basedir ?se ''general'') (fst p @ ''.json'')) = None \<and>
      encode_error ?E (JMessages (snd p)) = None"
    by (simp add: demo_env_def)
  have paths: "filepath_Join (basedir ?se ''general'') (''2022-03-01'' @ ''.json'') = ''out/general/2022-03-01.json''"
    "filepath_Join (basedir ?se ''general'') (''2022-03-02'' @ ''.json'') = ''out/general/2022-03-02.json''"
    by (simp_all add: filepath_Join_def basedir_def demo_export_def)
  from date_files_partition_messages [OF h1 h2 h3 h4 h5 h6]
  obtain w' where "exportConversation ?se ?E general demo_users empty_world = (None, w')"
    and "files w' (filepath_Join (basedir ?se ''general'') (''2022-03-01'' @ ''.json'')) = Some (JMessages [msg1, msg3])"
    and "files w' (filepath_Join (basedir ?se ''general'') (''2022-03-02'' @ ''.json'')) = Some (JMessages [msg2])"
    by auto
  with h1 h3 h4 paths show ?thesis by simp
qed

subsection \<open>What the steps of the export leave unchanged\<close>

lemma serializeToFile_frame:
  "serializeToFile E p d w = (r, w') \<Longrightarrow> dirs w' = dirs w \<and> logs w' = logs w \<and> dl w' = dl w"
  by (auto simp: serializeToFile_def serialize_def split: option.splits)


lemma saveChannel_loop_dl:
  "saveChannel_loop E bd b w = (r, w') \<Longrightarrow> dl w' = dl w"
proof (induction b arbitrary: w)
  case Nil
  then show ?case by simp
next
  case (Cons p b)
  obtain d ms where p: "p = (d, ms)" by (cases p)
  obtain r1 w1 where one: "serializeToFile E (filepath_Join bd (d @ ''.json'')) (JMessages ms) w = (r1, w1)"
    by (cases "serializeToFile E (filepath_Join bd (d @ ''.json'')) (JMessages ms) w")
  from serializeToFile_frame [OF one] have w1: "dl w1 = dl w" by simp
  show ?case
  proof (cases r1)
    case None
    with Cons.prems p one have "saveChannel_loop E bd b w1 = (r, w')" by simp
    from Cons.IH [OF this] w1 show ?thesis by simp
  next
    case (Some err)
    with Cons.prems p one have "w' = w1" by simp
    with w1 show ?thesis by simp
  qed
qed

lemma saveChannel_dl:
  "saveChannel se E channelName b w = (r, w') \<Longrightarrow> dl w' = dl w"
  by (auto simp: saveChannel_def split: option.splits dest: saveChannel_loop_dl)

lemma downloadFn_loop_started:
  "downloadFn_loop E d n fs w = (r, w') \<Longrightarrow> started (dl w') = started (dl w)"
proof (induction fs arbitrary: w)
  case Nil
  then show ?case by simp
next
  case (Cons f fs)
  obtain r1 w1 where one: "DownloadFile E d f w = (r1, w1)" by (cases "DownloadFile E d f w")
  from DownloadFile_started [OF one] have w1: "started (dl w1) = started (dl w)" .
  show ?case
  proof (cases r1)
    case (Some err)
    with Cons.prems one have "w' = w1" by (simp split: if_splits)
    with w1 show ?thesis by simp
  next
    case None
    with Cons.prems one have
      "downloadFn_loop E d n fs (w1\<lparr>logs := logs w1 @ [DlogSent (FileName f)]\<rparr>) = (r, w')"
      by simp
    from Cons.IH [OF this] w1 show ?thesis by simp
  qed
qed

lemma dump_pages_started:
  "(\<And>page w r w'. fn page w = (r, w') \<Longrightarrow> started (dl w') = started (dl w)) \<Longrightarrow>
   dump_pages ps fn acc w = (r, w') \<Longrightarrow>
   started (dl w') = started (dl w)"
proof (induction ps fn acc w rule: dump_pages.induct)
  case (1 processFn acc w)
  then show ?case by simp
next
  case (2 err pages processFn acc w)
  then show ?case by simp
next
  case (3 page pages processFn acc w)
  obtain r1 w1 where step: "processFn page w = (r1, w1)" by (cases "processFn page w")
  from "3.prems"(1) [OF step] have w1: "started (dl w1) = started (dl w)" .
  show ?case
  proof (cases r1)
    case (Inl err)
    with "3.prems"(2) step have "w' = w1" by simp
    with w1 show ?thesis by simp
  next
    case (Inr res)
    with "3.prems"(2) step have rest: "dump_pages pages processFn (acc @ page) w1 = (r, w')" by simp
    from "3.IH" [OF step [symmetric] Inr "3.prems"(1) rest] w1 show ?thesis by simp
  qed
qed

lemma DumpMessagesRaw_started:
  "DumpMessagesRaw E cid oldest latest (downloadFn se E channelName) w = (r, w') \<Longrightarrow>
   started (dl w') = started (dl w)"
  unfolding DumpMessagesRaw_def
  by (rule dump_pages_started [where fn = "\<lambda>page. downloadFn se E channelName page cid"])
     (auto simp: downloadFn_def dest: downloadFn_loop_started)

lemma exportConversation_started:
  assumes "exportConversation se E ch us w = (r, w')"
  shows "started (dl w') = started (dl w)"
proof -
  obtain r1 w1 where dump: "DumpMessagesRaw E (ID ch) (Oldest (opts se)) (Latest (opts se)) (downloadFn se E (Name ch)) w = (r1, w1)"
    by (cases "DumpMessagesRaw E (ID ch) (Oldest (opts se)) (Latest (opts se)) (downloadFn se E (Name ch)) w")
  from DumpMessagesRaw_started [OF dump] have w1: "started (dl w1) = started (dl w)" .
  have "dl w' = dl w1"
    using assms dump
    by (auto simp: exportConversation_def split: sum.splits if_splits prod.splits dest: saveChannel_dl)
  with w1 show ?thesis by simp
qed

lemma messages_cb_started:
  "messages_cb se E us ch s = (r, s') \<Longrightarrow> started (dl (snd s')) = started (dl (snd s))"
  by (auto simp: messages_cb_def split: prod.splits option.splits dest: exportConversation_started)

lemma stream_page_started:
  "stream_page (messages_cb se E us) chs s = (r, s') \<Longrightarrow> started (dl (snd s')) = started (dl (snd s))"
proof (induction chs arbitrary: s)
  case Nil
  then show ?case by simp
next
  case (Cons ch chs)
  obtain r1 s1 where step: "messages_cb se E us ch s = (r1, s1)" by (cases "messages_cb se E us ch s")
  from messages_cb_started [OF step] have s1: "started (dl (snd s1)) = started (dl (snd s))" .
  show ?case
  proof (cases r1)
    case None
    with Cons.prems step have "stream_page (messages_cb se E us) chs s1 = (r, s')" by simp
    from Cons.IH [OF this] s1 show ?thesis by simp
  next
    case (Some err)
    with Cons.prems step have "s' = s1" by simp
    with s1 show ?thesis by simp
  qed
qed

lemma stream_pages_started:
  "stream_pages (messages_cb se E us) ps s = (r, s') \<Longrightarrow> started (dl (snd s')) = started (dl (snd s))"
proof (induction "messages_cb se E us" ps s rule: stream_pages.induct)
  case (1 s)
  then show ?case by simp
next
  case (2 err pages s)
  then show ?case by simp
next
  case (3 chs pages s)
  obtain r1 s1 where step: "stream_page (messages_cb se E us) chs s = (r1, s1)"
    by (cases "stream_page (messages_cb se E us) chs s")
  from stream_page_started [OF step] have s1: "started (dl (snd s1)) = started (dl (snd s))" .
  show ?case
  proof (cases r1)
    case None
    with "3.prems" step have rest: "stream_pages (messages_cb se E us) pages s1 = (r, s')" by simp
    from "3.hyps" [OF step [symmetric] None rest] s1 show ?thesis by simp
  next
    case (Some err)
    with "3.prems" step have "s' = s1" by simp
    with s1 show ?thesis by simp
  qed
qed

lemma messages_started:
  assumes "IncludeFiles (opts se)"
  shows "started (dl (snd (messages se E us w)))"
proof -
  obtain r chans w1 where st: "messages_stream se E us w = (r, (chans, w1))"
    by (cases "messages_stream se E us w") auto
  then have "stream_pages (messages_cb se E us) (Conversations E AllChanTypes) ([], with_downloader se w) = (r, (chans, w1))"
    by (simp add: messages_stream_def StreamChannels_def)
  from stream_pages_started [OF this] assms have w1: "started (dl w1)"
    by (simp add: with_downloader_def Start_def)
  show ?thesis
  proof (cases r)
    case (Some err)
    with st w1 show ?thesis by (simp add: messages_def)
  next
    case None
    obtain r2 w2 where bak: "serializeToFile E (filepath_Join (dir se) ''channels_full.json.bak'') (JChannels chans) w1 = (r2, w2)"
      by (cases "serializeToFile E (filepath_Join (dir se) ''channels_full.json.bak'') (JChannels chans) w1")
    let ?w3 = "w2\<lparr>logs := logs w2 @ snd (filterOutStrangeChannels_logged chans)\<rparr>"
    obtain r4 w4 where cj: "serializeToFile E (filepath_Join (dir se) ''channels.json'')
        (JChannels (filterOutStrangeChannels chans)) ?w3 = (r4, w4)"
      by (cases "serializeToFile E (filepath_Join (dir se) ''channels.json'')
        (JChannels (filterOutStrangeChannels chans)) ?w3")
    from serializeToFile_frame [OF bak] serializeToFile_frame [OF cj] w1 have "started (dl w4)" by simp
    with None st bak cj show ?thesis by (simp add: messages_def Let_def)
  qed
qed

subsection \<open>The channel stream\<close>




lemma stream_page_append:
  "stream_page cb (xs @ ys) s =
     (case stream_page cb xs s of (Some err, s') \<Rightarrow> (Some err, s') | (None, s') \<Rightarrow> stream_page cb ys s')"
  by (induction xs arbitrary: s) (auto split: prod.splits option.splits)

lemma stream_pages_append:
  "stream_pages cb (ps @ qs) s =
     (case stream_pages cb ps s of (Some err, s') \<Rightarrow> (Some err, s') | (None, s') \<Rightarrow> stream_pages cb qs s')"
proof (induction ps arbitrary: s)
  case Nil
  then show ?case by simp
next
  case (Cons p ps)
  then show ?case by (cases p) (auto split: prod.splits option.splits)
qed

lemma stream_pages_fails_at:
  assumes "stream_pages cb (map Inr earlier @ [Inr pre]) s = (None, s1)"
    and "cb ch s1 = (Some err, s2)"
  shows "stream_pages cb (map Inr earlier @ Inr (pre @ ch # post) # later) s = (Some err, s2)"
proof -
  from assms(1) obtain sA where a: "stream_pages cb (map Inr earlier) s = (None, sA)"
    and b: "stream_page cb pre sA = (None, s1)"
    by (auto simp: stream_pages_append split: prod.splits option.splits)
  from b assms(2) have "stream_page cb (pre @ ch # post) sA = (Some err, s2)"
    by (simp add: stream_page_append)
  with a show ?thesis by (simp add: stream_pages_append)
qed


subsection \<open>Unfolding the export on the small workspace\<close>

lemmas export_defs =
  Run_def users_def messages_def messages_stream_def with_downloader_def StreamChannels_def
  messages_cb_def exportConversation_def DumpMessagesRaw_def downloadFn_def ExtractFiles_def
  DownloadFile_def worker_download_def byDate_def validName_def saveChannel_def serializeToFile_def serialize_def
  downloader_New_def Start_def filepath_Join_def basedir_def AllChanTypes_def
  filterOutStrangeChannels_def filterOutStrangeChannels_logged_def channels_of_pages_def

lemmas demo_defs =
  demo_env_def demo_export_def demo_history_def demo_users_def empty_world_def
  general_def im_alice_def nameless_def nameless_silent_def msg1_def msg2_def msg3_def photo_def

subsection \<open>The channel list and the backup\<close>




subsection \<open>A channel that cannot be named\<close>

text \<open>
  C1 (as amended). For every channel that has an empty \<^verbatim>\<open>NameNormalized\<close> and is not an IM
  and that yields at least one message in the window (messages whose dates can be
  derived): \<^verbatim>\<open>exportConversation\<close> reports the channel (a trace line for the unsupported
  channel) and returns the unknown-entity error, leaving the world as the dump of the
  channel's messages left it but for that trace line; the callback hands the error on and
  does not append the channel; and once the stream has reached the channel (the channels
  listed before it exported without error), \<^verbatim>\<open>Export.Run\<close> returns that error, wrapped
  with \<^verbatim>\<open>channels: error\<close>, in that same world: the run does not go on.
\<close>

theorem unknown_entity_aborts_run:
  assumes "NameNormalized ch = []" and "\<not> IsIM ch"
    and "users se E w_start = (Inr us, w0)"
    and "Conversations E AllChanTypes = map Inr earlier @ Inr (pre @ ch # post) # later"
    and "stream_pages (messages_cb se E us) (map Inr earlier @ [Inr pre]) ([], with_downloader se w0)
           = (None, (chans, w))"
    and "DumpMessagesRaw E (ID ch) (Oldest (opts se)) (Latest (opts se)) (downloadFn se E (Name ch)) w
           = (Inr msgs, w1)"
    and "msgs \<noteq> []"
    and "byDate E msgs us = Inr by_date"
  shows "exportConversation se E ch us w
           = (Some ErrUnknownEntity, w1\<lparr>logs := logs w1 @ [TraceUnsupported ch]\<rparr>) \<and>
         messages_cb se E us ch (chans, w)
           = (Some ErrUnknownEntity, (chans, w1\<lparr>logs := logs w1 @ [TraceUnsupported ch]\<rparr>)) \<and>
         Run se E w_start
           = (Some (Wrapped ''channels: error'' ErrUnknownEntity), w1\<lparr>logs := logs w1 @ [TraceUnsupported ch]\<rparr>)"
proof -
  let ?w' = "w1\<lparr>logs := logs w1 @ [TraceUnsupported ch]\<rparr>"
  have name: "validName ch (IndexByID us) = (Inl ErrUnknownEntity, [TraceUnsupported ch])"
    using assms(1,2) by (simp add: validName_def)
  have conv: "exportConversation se E ch us w = (Some ErrUnknownEntity, ?w')"
    using assms(6,7,8) name by (simp add: exportConversation_def)
  have cb: "messages_cb se E us ch (chans, w) = (Some ErrUnknownEntity, (chans, ?w'))"
    using conv by (simp add: messages_cb_def)
  have "stream_pages (messages_cb se E us) (map Inr earlier @ Inr (pre @ ch # post) # later)
          ([], with_downloader se w0) = (Some ErrUnknownEntity, (chans, ?w'))"
    using assms(5) cb by (rule stream_pages_fails_at)
  then have "messages_stream se E us w0 = (Some ErrUnknownEntity, (chans, ?w'))"
    by (simp add: messages_stream_def StreamChannels_def assms(4))
  then have "messages se E us w0 = (Some (Wrapped ''channels: error'' ErrUnknownEntity), ?w')"
    by (simp add: messages_def)
  then have "Run se E w_start = (Some (Wrapped ''channels: error'' ErrUnknownEntity), ?w')"
    by (simp add: Run_def assms(3))
  with conv cb show ?thesis by simp
qed

theorem unknown_entity_aborts_run_witness:
  "users (demo_export False) (demo_env [nameless, general]) empty_world
     = (Inr demo_users, empty_world\<lparr>files := [''out/users.json'' \<mapsto> JUsers demo_users]\<rparr>) \<and>
   byDate (demo_env [nameless, general]) [msg2] demo_users = Inr [(''2022-03-02'', [msg2])] \<and>
   fst (Run (demo_export False) (demo_env [nameless, general]) empty_world)
     = Some (Wrapped ''channels: error'' ErrUnknownEntity) \<and>
   logs (snd (Run (demo_export False) (demo_env [nameless, general]) empty_world)) = [TraceUnsupported nameless] \<and>
   files (snd (Run (demo_export False) (demo_env [nameless, general]) empty_world)) ''out/channels.json'' = None"
proof -
  let ?se = "demo_export False"
  let ?E = "demo_env [nameless, general]"
  let ?w0 = "empty_world\<lparr>files := [''out/users.json'' \<mapsto> JUsers demo_users]\<rparr>"
  have h1: "NameNormalized nameless = []" and h2: "\<not> IsIM nameless"
    by (simp_all add: nameless_def)
  have h3: "users ?se ?E empty_world = (Inr demo_users, ?w0)"
    by (simp add: users_def serializeToFile_def serialize_def filepath_Join_def demo_env_def
          demo_export_def empty_world_def)
  have h4: "Conversations ?E AllChanTypes = map Inr [] @ Inr ([] @ nameless # [general]) # []"
    by (simp add: demo_env_def)
  have h5: "stream_pages (messages_cb ?se ?E demo_users) (map Inr [] @ [Inr []]) ([], with_downloader ?se ?w0)
      = (None, ([], with_downloader ?se ?w0))"
    by simp
  have h6: "DumpMessagesRaw ?E (ID nameless) (Oldest (opts ?se)) (Latest (opts ?se))
      (downloadFn ?se ?E (Name nameless)) (with_downloader ?se ?w0) = (Inr [msg2], with_downloader ?se ?w0)"
    by (simp add: DumpMessagesRaw_def downloadFn_def ExtractFiles_def demo_env_def demo_history_def
          nameless_def msg2_def)
  have h7: "[msg2] \<noteq> []" by simp
  have h8: "byDate ?E [msg2] demo_users = Inr [(''2022-03-02'', [msg2])]"
    by (simp add: byDate_def demo_env_def msg2_def)
  have w: "logs (with_downloader ?se ?w0) = []" "files (with_downloader ?se ?w0) ''out/channels.json'' = None"
    by (simp_all add: with_downloader_def empty_world_def)
  from unknown_entity_aborts_run [OF h1 h2 h3 h4 h5 h6 h7 h8] h3 h8 w
  show ?thesis by simp
qed

text \<open>
  C1 as stated fails: in a workspace whose only channel has no name, is not an IM and has
  one message in the window, \<^verbatim>\<open>Export.Run\<close> returns an error because of that channel.
\<close>

theorem unknown_entity_run_counterexample:
  "NameNormalized nameless = [] \<and> \<not> IsIM nameless \<and>
   History (demo_env [nameless]) (ID nameless) (Oldest (opts (demo_export False))) (Latest (opts (demo_export False)))
     = [Inr [msg2]] \<and>
   fst (Run (demo_export False) (demo_env [nameless]) empty_world)
     = Some (Wrapped ''channels: error'' ErrUnknownEntity)"
  by (simp add: export_defs demo_defs)

subsection \<open>The downloader at the end of the run\<close>

text \<open>
  C6. What the code does where the claim says that the downloader is stopped: with
  \<^verbatim>\<open>IncludeFiles\<close>, once the users have been fetched, the downloader that \<^verbatim>\<open>messages\<close>
  starts is still running when \<^verbatim>\<open>Export.Run\<close> returns, whatever the run returns; the
  state it is left in is not one that \<^verbatim>\<open>Stop\<close> leaves.
\<close>

theorem downloader_left_running:
  "IncludeFiles (opts se) \<and> users se E w = (Inr us, w0) \<longrightarrow>
     started (dl (snd (Run se E w))) \<and> (\<forall>d. dl (snd (Run se E w)) \<noteq> dl (Stop d))"
proof
  assume a: "IncludeFiles (opts se) \<and> users se E w = (Inr us, w0)"
  then have run: "started (dl (snd (Run se E w)))"
    by (simp add: Run_def messages_started)
  have "\<not> started (dl (Stop d))" for d
    by (simp add: Stop_def)
  with run have "\<forall>d. dl (snd (Run se E w)) \<noteq> dl (Stop d)" by metis
  with run show "started (dl (snd (Run se E w))) \<and> (\<forall>d. dl (snd (Run se E w)) \<noteq> dl (Stop d))" by simp
qed

theorem downloader_left_running_witness:
  "users (demo_export True) (demo_env [general]) empty_world
     = (Inr demo_users, empty_world\<lparr>files := [''out/users.json'' \<mapsto> JUsers demo_users]\<rparr>) \<and>
   fst (Run (demo_export True) (demo_env [general]) empty_world) = None \<and>
   started (dl (snd (Run (demo_export True) (demo_env [general]) empty_world))) \<and>
   queue (dl (snd (Run (demo_export True) (demo_env [general]) empty_world)))
     = [(''out/general/attachments'', photo)]"
proof -
  let ?se = "demo_export True"
  let ?E = "demo_env [general]"
  have h1: "IncludeFiles (opts ?se)" by (simp add: demo_export_def)
  have h2: "users ?se ?E empty_world
     = (Inr demo_users, empty_world\<lparr>files := [''out/users.json'' \<mapsto> JUsers demo_users]\<rparr>)"
    by (simp add: users_def serializeToFile_def serialize_def filepath_Join_def demo_env_def
          demo_export_def empty_world_def)
  have ok: "fst (Run ?se ?E empty_world) = None"
    by (simp add: export_defs demo_defs)
  have q: "queue (dl (snd (Run ?se ?E empty_world))) = [(''out/general/attachments'', photo)]"
    by (simp add: export_defs demo_defs)
  from downloader_left_running [of ?se ?E empty_world demo_users
      "empty_world\<lparr>files := [''out/users.json'' \<mapsto> JUsers demo_users]\<rparr>"] h1 h2 ok q
  show ?thesis by simp
qed

end
